theory Spec2Isabelle
  imports Complex_Main "HOL-Library.Monad_Syntax"
begin

section \<open>Keyboard teleoperation of a RoboMaster: the model of drive.py\<close>

text \<open>
  The development embeds the module \<^verbatim>\<open>drive.py\<close>: the class \<^verbatim>\<open>Controller\<close> (the
  keyboard handlers and \<^verbatim>\<open>send_command\<close>) and the function \<^verbatim>\<open>handle_event\<close>.

  Conventions of the embedding.
  \<^item> Python's numbers are modelled by rationals. The only arithmetic of the module is
    \<^verbatim>\<open>gear * UNIT_DELTA_SPEED\<close>, \<^verbatim>\<open>gear * UNIT_DELTA_DEGREE\<close> and unary minus, and
    velocities are otherwise only copied and compared for equality.
  \<^item> A handler returns \<open>None\<close> when the Python code raises (an \<^verbatim>\<open>IndexError\<close> of a list
    subscript, a \<^verbatim>\<open>ValueError\<close> of \<^verbatim>\<open>int\<close>, an \<^verbatim>\<open>AttributeError\<close> of \<^verbatim>\<open>key.char\<close>):
    the exception leaves the handler, and what the handler did before it is not recorded.
  \<^item> The calls on the \<^verbatim>\<open>Commander\<close> object are the observable output: each handler
    returns the list of commands it issued, in order, and every such call is taken to
    return. Calls on the logger are left out,
    and so is the lock \<^verbatim>\<open>_mu\<close>: every handler body runs under it from start to end, which
    is why a handler is one atomic state transformer here.
\<close>

subsection \<open>Keys, commands, events\<close>

text \<open>
  The keys of pynput: a member of the enumeration \<^verbatim>\<open>Key\<close> (the six the module names, and
  any other by its name), or a \<^verbatim>\<open>KeyCode\<close> carrying a character. Two keys are equal when
  they are the same member or carry the same character.
\<close>

datatype key =
    Key_ctrl | Key_space | Key_up | Key_down | Key_left | Key_right
  | Key_other string
  | KeyCode char

text \<open>The three methods of the \<^verbatim>\<open>Commander\<close> that the module calls from its handlers.\<close>

datatype command =
    chassis_speed rat rat rat
  | gimbal_speed rat rat
  | blaster_fire

text \<open>
  What a keyboard callback returns: \<^verbatim>\<open>None\<close> (a bare \<^verbatim>\<open>return\<close> or the end of the body), or
  \<^verbatim>\<open>False\<close>, which stops the listener.
\<close>

datatype retval = PyNone | PyFalse

text \<open>
  The events of the event queue, by their class; the payload is opaque. Only
  \<^verbatim>\<open>rm.ArmorHitEvent\<close> is named by \<^verbatim>\<open>handle_event\<close>.
\<close>

datatype 'a event = ArmorHitEvent 'a | SoundApplauseEvent 'a | OtherEvent 'a

subsection \<open>Python primitives\<close>

text \<open>\<^verbatim>\<open>xs[i] = x\<close> and \<^verbatim>\<open>xs[i]\<close> for an index \<open>i \<ge> 0\<close>: out of range raises.\<close>

definition setitem :: "'a list \<Rightarrow> nat \<Rightarrow> 'a \<Rightarrow> 'a list option" where
  "setitem xs i x = (if i < length xs then Some (xs[i := x]) else None)"

definition getitem :: "'a list \<Rightarrow> nat \<Rightarrow> 'a option" where
  "getitem xs i = (if i < length xs then Some (xs ! i) else None)"

text \<open>\<^verbatim>\<open>key.char\<close>: only a \<^verbatim>\<open>KeyCode\<close> has the attribute.\<close>

fun key_char :: "key \<Rightarrow> char option" where
  "key_char (KeyCode ch) = Some ch"
| "key_char _ = None"

text \<open>\<^verbatim>\<open>int(s)\<close> for a string of one character: the value of a decimal digit, or an error.\<close>

definition py_int :: "char \<Rightarrow> int option" where
  "py_int ch =
     (let n = (of_char ch :: nat)
      in if 48 \<le> n \<and> n \<le> 57 then Some (int n - 48) else None)"

text \<open>
  \<^verbatim>\<open>queue.get(timeout=...)\<close>: the oldest message and the rest of the queue, or \<open>None\<close> for
  \<^verbatim>\<open>queue.Empty\<close> when the timeout passes with nothing to take. Time is not modelled.
\<close>

fun queue_get :: "'a list \<Rightarrow> ('a \<times> 'a list) option" where
  "queue_get [] = None"
| "queue_get (m # q) = Some (m, q)"

subsection \<open>The controller\<close>

definition UNIT_DELTA_SPEED :: rat where
  "UNIT_DELTA_SPEED = 0.2"

definition UNIT_DELTA_DEGREE :: rat where
  "UNIT_DELTA_DEGREE = 20"

text \<open>
  The fields of \<^verbatim>\<open>Controller\<close>, without the lock, the commander and the logger. The four
  velocity fields are Python lists.
\<close>

record Controller =
  gear :: int
  delta_v :: rat
  delta_d :: rat
  v :: "rat list"
  previous_v :: "rat list"
  v_gimbal :: "rat list"
  previous_v_gimbal :: "rat list"
  ctrl_pressed :: bool

text \<open>\<^verbatim>\<open>Controller.__init__\<close>\<close>

definition Controller_init :: Controller where
  "Controller_init =
     \<lparr> gear = 1,
       delta_v = UNIT_DELTA_SPEED,
       delta_d = UNIT_DELTA_DEGREE,
       v = [0, 0],
       previous_v = [0, 0],
       v_gimbal = [0, 0],
       previous_v_gimbal = [0, 0],
       ctrl_pressed = False \<rparr>"

text \<open>
  \<^verbatim>\<open>Controller.send_command\<close>. The copy \<^verbatim>\<open>[*self.v]\<close> is a fresh list with the same
  elements, so the two fields never share a list and the value is all that matters.
\<close>

definition send_command :: "Controller \<Rightarrow> (Controller \<times> command list) option" where
  "send_command c =
     do {
       (c1, out1) \<leftarrow>
         (if v c \<noteq> previous_v c then
            do {
              let c1 = c\<lparr>previous_v := v c\<rparr>;
              x \<leftarrow> getitem (v c1) 0;
              y \<leftarrow> getitem (v c1) 1;
              Some (c1, [chassis_speed x y 0])
            }
          else Some (c, []));
       (c2, out2) \<leftarrow>
         (if v_gimbal c1 \<noteq> previous_v_gimbal c1 then
            do {
              p \<leftarrow> getitem (v_gimbal c1) 0;
              y \<leftarrow> getitem (v_gimbal c1) 1;
              let c2 = c1\<lparr>previous_v_gimbal := v_gimbal c1\<rparr>;
              Some (c2, [gimbal_speed p y])
            }
          else Some (c1, []));
       Some (c2, out1 @ out2)
     }"

text \<open>\<^verbatim>\<open>self.v[i] = x\<close> and \<^verbatim>\<open>self.v_gimbal[i] = x\<close>\<close>

definition set_v :: "Controller \<Rightarrow> nat \<Rightarrow> rat \<Rightarrow> Controller option" where
  "set_v c i x = do { xs \<leftarrow> setitem (v c) i x; Some (c\<lparr>v := xs\<rparr>) }"

definition set_v_gimbal :: "Controller \<Rightarrow> nat \<Rightarrow> rat \<Rightarrow> Controller option" where
  "set_v_gimbal c i x = do { xs \<leftarrow> setitem (v_gimbal c) i x; Some (c\<lparr>v_gimbal := xs\<rparr>) }"

text \<open>\<^verbatim>\<open>Controller.on_press\<close>\<close>

definition on_press :: "Controller \<Rightarrow> key \<Rightarrow> (Controller \<times> command list \<times> retval) option" where
  "on_press c key =
     (if key = Key_ctrl then Some (c\<lparr>ctrl_pressed := True\<rparr>, [], PyNone)
      else if ctrl_pressed c \<and> key = KeyCode CHR ''c'' then
        do {
          let c1 = c\<lparr>v := [0, 0]\<rparr>;
          let c2 = c1\<lparr>v_gimbal := [0, 0]\<rparr>;
          (c3, out) \<leftarrow> send_command c2;
          Some (c3, out, PyFalse)
        }
      else if key = Key_space then Some (c, [blaster_fire], PyNone)
      else
        do {
          c1 \<leftarrow>
            (if key = KeyCode CHR ''w'' then set_v c 0 (delta_v c)
             else if key = KeyCode CHR ''s'' then set_v c 0 (- delta_v c)
             else if key = KeyCode CHR ''a'' then set_v c 1 (- delta_v c)
             else if key = KeyCode CHR ''d'' then set_v c 1 (delta_v c)
             else if key = Key_up then set_v_gimbal c 0 (delta_d c)
             else if key = Key_down then set_v_gimbal c 0 (- delta_d c)
             else if key = Key_left then set_v_gimbal c 1 (- delta_d c)
             else if key = Key_right then set_v_gimbal c 1 (delta_d c)
             else Some c);
          (c2, out) \<leftarrow> send_command c1;
          Some (c2, out, PyNone)
        })"

text \<open>\<^verbatim>\<open>Controller._update_gear\<close>\<close>

definition update_gear :: "Controller \<Rightarrow> int \<Rightarrow> Controller" where
  "update_gear c g =
     (let c1 = c\<lparr>gear := g\<rparr>;
          c2 = c1\<lparr>delta_v := of_int (gear c1) * UNIT_DELTA_SPEED\<rparr>
      in c2\<lparr>delta_d := of_int (gear c2) * UNIT_DELTA_DEGREE\<rparr>)"

text \<open>\<^verbatim>\<open>Controller.on_release\<close>\<close>

definition on_release :: "Controller \<Rightarrow> key \<Rightarrow> (Controller \<times> command list \<times> retval) option" where
  "on_release c key =
     (if key = Key_ctrl then Some (c\<lparr>ctrl_pressed := False\<rparr>, [], PyNone)
      else if key \<in> set [KeyCode CHR ''1'', KeyCode CHR ''2'', KeyCode CHR ''3'',
                          KeyCode CHR ''4'', KeyCode CHR ''5''] then
        do {
          ch \<leftarrow> key_char key;
          g \<leftarrow> py_int ch;
          Some (update_gear c g, [], PyNone)
        }
      else
        do {
          c1 \<leftarrow>
            (if key \<in> set [KeyCode CHR ''w'', KeyCode CHR ''s''] then set_v c 0 0
             else if key \<in> set [KeyCode CHR ''a'', KeyCode CHR ''d''] then set_v c 1 0
             else if key \<in> set [Key_up, Key_down] then set_v_gimbal c 0 0
             else if key \<in> set [Key_left, Key_right] then set_v_gimbal c 1 0
             else Some c);
          (c2, out) \<leftarrow> send_command c1;
          Some (c2, out, PyNone)
        })"

subsection \<open>The keyboard listener\<close>

text \<open>
  \<^verbatim>\<open>control\<close> hands the two handlers to a \<^verbatim>\<open>keyboard.Listener\<close> and joins it. The listener
  calls \<^verbatim>\<open>on_press\<close> or \<^verbatim>\<open>on_release\<close> for each key event in the order of arrival and stops
  as soon as a callback returns \<^verbatim>\<open>False\<close>; the events after that are not delivered. The
  result is the final controller, every command issued, and whether the listener is
  still running.
\<close>

datatype key_event = Press key | Release key

fun dispatch :: "Controller \<Rightarrow> key_event \<Rightarrow> (Controller \<times> command list \<times> retval) option" where
  "dispatch c (Press k) = on_press c k"
| "dispatch c (Release k) = on_release c k"

fun listener :: "Controller \<Rightarrow> key_event list \<Rightarrow> (Controller \<times> command list \<times> bool) option" where
  "listener c [] = Some (c, [], True)"
| "listener c (e # es) =
     (case dispatch c e of
        None \<Rightarrow> None
      | Some (c1, out1, r) \<Rightarrow>
          if r = PyFalse then Some (c1, out1, False)
          else (case listener c1 es of
                  None \<Rightarrow> None
                | Some (c2, out2, running) \<Rightarrow> Some (c2, out1 @ out2, running)))"

subsection \<open>The event handler\<close>

text \<open>
  \<^verbatim>\<open>handle_event\<close>: one poll cycle. It takes at most one message from each queue and
  returns the queues as it leaves them and the commands it issued. It has the commander,
  the queues and the logger, and nothing of the \<^verbatim>\<open>Controller\<close>.
\<close>

definition handle_event ::
  "'p list \<times> 'a event list \<Rightarrow> ('p list \<times> 'a event list) \<times> command list" where
  "handle_event queues =
     (let (push_queue, event_queue) = queues;
          push_queue1 =
            (case queue_get push_queue of
               Some (push, q) \<Rightarrow> q
             | None \<Rightarrow> push_queue)
      in case queue_get event_queue of
           Some (event, q) \<Rightarrow>
             ((push_queue1, q),
              (if (case event of ArmorHitEvent _ \<Rightarrow> True | _ \<Rightarrow> False)
               then [chassis_speed 0 0 0] else []))
         | None \<Rightarrow> ((push_queue1, event_queue), []))"

subsection \<open>The two workers side by side\<close>

text \<open>
  \<^verbatim>\<open>cli\<close> registers \<^verbatim>\<open>handle_event\<close> and \<^verbatim>\<open>control\<close> as two workers that run at the same
  time and share nothing but the robot they command. The system state is therefore the
  controller, the two queues (of capacity \<^verbatim>\<open>QUEUE_SIZE\<close>), whether the keyboard listener
  is still running, and the commands the robot has been sent so far. One step is one key
  event handled, one poll cycle of \<^verbatim>\<open>handle_event\<close>, or one message put on a queue by its
  producer; a message offered to a full queue is not added at that step.
\<close>

definition QUEUE_SIZE :: nat where
  "QUEUE_SIZE = 10"

record ('p, 'a) system =
  controller :: Controller
  push_queue :: "'p list"
  event_queue :: "'a event list"
  listening :: bool
  sent :: "command list"

datatype ('p, 'a) input =
    Keyboard key_event
  | Poll
  | Push_arrives 'p
  | Event_arrives "'a event"

definition system_init :: "('p, 'a) system" where
  "system_init =
     \<lparr> controller = Controller_init, push_queue = [], event_queue = [],
       listening = True, sent = [] \<rparr>"

definition queue_put :: "'m list \<Rightarrow> 'm \<Rightarrow> 'm list" where
  "queue_put q m = (if length q < QUEUE_SIZE then q @ [m] else q)"

fun system_step :: "('p, 'a) system \<Rightarrow> ('p, 'a) input \<Rightarrow> ('p, 'a) system option" where
  "system_step s (Keyboard e) =
     (if listening s then
        (case dispatch (controller s) e of
           None \<Rightarrow> None
         | Some (c1, out, r) \<Rightarrow>
             Some (s\<lparr>controller := c1, listening := (r \<noteq> PyFalse), sent := sent s @ out\<rparr>))
      else Some s)"
| "system_step s Poll =
     (case handle_event (push_queue s, event_queue s) of
        ((pq, eq), out) \<Rightarrow>
          Some (s\<lparr>push_queue := pq, event_queue := eq, sent := sent s @ out\<rparr>))"
| "system_step s (Push_arrives m) = Some (s\<lparr>push_queue := queue_put (push_queue s) m\<rparr>)"
| "system_step s (Event_arrives ev) = Some (s\<lparr>event_queue := queue_put (event_queue s) ev\<rparr>)"

fun system_run :: "('p, 'a) system \<Rightarrow> ('p, 'a) input list \<Rightarrow> ('p, 'a) system option" where
  "system_run s [] = Some s"
| "system_run s (i # is) =
     (case system_step s i of None \<Rightarrow> None | Some s1 \<Rightarrow> system_run s1 is)"

subsection \<open>Predicates of the properties\<close>

text \<open>Both velocity lists have their two elements, as every list the class builds has.\<close>

definition two_axes :: "Controller \<Rightarrow> bool" where
  "two_axes c \<longleftrightarrow> length (v c) = 2 \<and> length (v_gimbal c) = 2"

text \<open>The last-sent fields agree with the current velocities.\<close>

definition in_sync :: "Controller \<Rightarrow> bool" where
  "in_sync c \<longleftrightarrow> v c = previous_v c \<and> v_gimbal c = previous_v_gimbal c"

text \<open>The gear is one of the five, and the two magnitudes are the ones of that gear.\<close>

definition gear_ok :: "Controller \<Rightarrow> bool" where
  "gear_ok c \<longleftrightarrow>
     gear c \<in> {1..5} \<and>
     delta_v c = of_int (gear c) * UNIT_DELTA_SPEED \<and>
     delta_d c = of_int (gear c) * UNIT_DELTA_DEGREE"


text \<open>The values a component can take with a unit \<open>u\<close>: zero, or plus or minus \<open>g * u\<close> for a gear \<open>g\<close> from 1 to 5.\<close>

definition gear_values :: "rat \<Rightarrow> rat set" where
  "gear_values u = insert 0 (\<Union>g \<in> {1..5::int}. {of_int g * u, - (of_int g * u)})"

definition within_some_gear :: "Controller \<Rightarrow> bool" where
  "within_some_gear c \<longleftrightarrow>
     set (v c) \<subseteq> gear_values UNIT_DELTA_SPEED \<and>
     set (v_gimbal c) \<subseteq> gear_values UNIT_DELTA_DEGREE"

text \<open>
  The axis a movement key drives, read off the two handlers: whether it is a gimbal axis,
  and the index in the list.
\<close>

definition axis_of :: "key \<Rightarrow> (bool \<times> nat) option" where
  "axis_of k =
     (if k \<in> set [KeyCode CHR ''w'', KeyCode CHR ''s''] then Some (False, 0)
      else if k \<in> set [KeyCode CHR ''a'', KeyCode CHR ''d''] then Some (False, 1)
      else if k \<in> set [Key_up, Key_down] then Some (True, 0)
      else if k \<in> set [Key_left, Key_right] then Some (True, 1)
      else None)"

definition component :: "Controller \<Rightarrow> bool \<times> nat \<Rightarrow> rat" where
  "component c ax = (if fst ax then v_gimbal c ! snd ax else v c ! snd ax)"


text \<open>The keys with a meaning: movement, gimbal, modifier, fire, the gear digits, and the \<^verbatim>\<open>c\<close> of the quit chord.\<close>

definition mapped_keys :: "key list" where
  "mapped_keys =
     [KeyCode CHR ''w'', KeyCode CHR ''s'', KeyCode CHR ''a'', KeyCode CHR ''d'',
      Key_up, Key_down, Key_left, Key_right, Key_ctrl, Key_space,
      KeyCode CHR ''1'', KeyCode CHR ''2'', KeyCode CHR ''3'', KeyCode CHR ''4'',
      KeyCode CHR ''5'', KeyCode CHR ''c'']"

definition gear_keys :: "(key \<times> int) list" where
  "gear_keys =
     [(KeyCode CHR ''1'', 1), (KeyCode CHR ''2'', 2), (KeyCode CHR ''3'', 3),
      (KeyCode CHR ''4'', 4), (KeyCode CHR ''5'', 5)]"

text \<open>A command that does not turn the chassis: any command but a chassis speed with a nonzero third argument.\<close>

fun no_rotation :: "command \<Rightarrow> bool" where
  "no_rotation (chassis_speed x y z) = (z = 0)"
| "no_rotation _ = True"

fun is_chassis :: "command \<Rightarrow> bool" where
  "is_chassis (chassis_speed x y z) = True"
| "is_chassis _ = False"

fun is_gimbal :: "command \<Rightarrow> bool" where
  "is_gimbal (gimbal_speed p y) = True"
| "is_gimbal _ = False"

text \<open>
  What \<^const>\<open>send_command\<close> amounts to on a controller with two-element lists: the state
  with both last-sent fields brought up to date, and the command of each group whose
  velocity differs from its last-sent value.
\<close>

definition mark_sent :: "Controller \<Rightarrow> Controller" where
  "mark_sent c = c\<lparr>previous_v := v c, previous_v_gimbal := v_gimbal c\<rparr>"

definition chassis_part :: "Controller \<Rightarrow> command list" where
  "chassis_part c =
     (if v c \<noteq> previous_v c then [chassis_speed (v c ! 0) (v c ! 1) 0] else [])"

definition gimbal_part :: "Controller \<Rightarrow> command list" where
  "gimbal_part c =
     (if v_gimbal c \<noteq> previous_v_gimbal c
      then [gimbal_speed (v_gimbal c ! 0) (v_gimbal c ! 1)] else [])"

text \<open>
  The commands that report the change of velocity from \<open>c\<close> to \<open>c'\<close>: one for each group
  whose vector differs, the chassis first.
\<close>

definition speed_commands :: "Controller \<Rightarrow> Controller \<Rightarrow> command list" where
  "speed_commands c c' =
     (if v c' \<noteq> v c then [chassis_speed (v c' ! 0) (v c' ! 1) 0] else []) @
     (if v_gimbal c' \<noteq> v_gimbal c then [gimbal_speed (v_gimbal c' ! 0) (v_gimbal c' ! 1)] else [])"

text \<open>The invariant of the controller between two key events.\<close>

definition steady :: "Controller \<Rightarrow> bool" where
  "steady c \<longleftrightarrow> two_axes c \<and> in_sync c \<and> gear_ok c \<and> within_some_gear c"

section \<open>Basic facts\<close>

lemma send_command_two_axes:
  "two_axes c \<Longrightarrow> send_command c = Some (mark_sent c, chassis_part c @ gimbal_part c)"
  by (auto simp: two_axes_def send_command_def getitem_def Let_def mark_sent_def
      chassis_part_def gimbal_part_def)

lemma send_command_in_sync: "in_sync c \<Longrightarrow> send_command c = Some (c, [])"
  by (simp add: in_sync_def send_command_def)

lemma set_v_two_axes:
  "two_axes c \<Longrightarrow> i < 2 \<Longrightarrow> set_v c i x = Some (c\<lparr>v := (v c)[i := x]\<rparr>)"
  by (simp add: two_axes_def set_v_def setitem_def)

lemma set_v_gimbal_two_axes:
  "two_axes c \<Longrightarrow> i < 2 \<Longrightarrow> set_v_gimbal c i x = Some (c\<lparr>v_gimbal := (v_gimbal c)[i := x]\<rparr>)"
  by (simp add: two_axes_def set_v_gimbal_def setitem_def)

lemma mark_sent_simps:
  "v (mark_sent c) = v c"
  "v_gimbal (mark_sent c) = v_gimbal c"
  "previous_v (mark_sent c) = v c"
  "previous_v_gimbal (mark_sent c) = v_gimbal c"
  "gear (mark_sent c) = gear c"
  "delta_v (mark_sent c) = delta_v c"
  "delta_d (mark_sent c) = delta_d c"
  "ctrl_pressed (mark_sent c) = ctrl_pressed c"
  by (simp_all add: mark_sent_def)

lemma update_gear_simps:
  "v (update_gear c g) = v c"
  "v_gimbal (update_gear c g) = v_gimbal c"
  "previous_v (update_gear c g) = previous_v c"
  "previous_v_gimbal (update_gear c g) = previous_v_gimbal c"
  "gear (update_gear c g) = g"
  "delta_v (update_gear c g) = of_int g * UNIT_DELTA_SPEED"
  "delta_d (update_gear c g) = of_int g * UNIT_DELTA_DEGREE"
  "ctrl_pressed (update_gear c g) = ctrl_pressed c"
  by (simp_all add: update_gear_def)

lemmas handler_simps =
  set_v_two_axes set_v_gimbal_two_axes send_command_two_axes mark_sent_simps update_gear_simps

lemma py_int_digits:
  "py_int CHR ''1'' = Some 1" "py_int CHR ''2'' = Some 2" "py_int CHR ''3'' = Some 3"
  "py_int CHR ''4'' = Some 4" "py_int CHR ''5'' = Some 5"
  by (simp_all add: py_int_def)

lemma gear_values_zero: "0 \<in> gear_values u"
  by (simp add: gear_values_def)

lemma gear_values_pos: "g \<in> {1..5} \<Longrightarrow> of_int g * u \<in> gear_values u"
  by (auto simp: gear_values_def)

lemma gear_values_neg: "g \<in> {1..5} \<Longrightarrow> - (of_int g * u) \<in> gear_values u"
  by (auto simp: gear_values_def)

lemma set_update_in: "set xs \<subseteq> A \<Longrightarrow> x \<in> A \<Longrightarrow> set (xs[i := x]) \<subseteq> A"
  using set_update_subset_insert [of xs i x] by auto

lemma within_some_gear_upd:
  "within_some_gear (mark_sent c) = within_some_gear c"
  "within_some_gear (update_gear c g) = within_some_gear c"
  "within_some_gear (c\<lparr>ctrl_pressed := b\<rparr>) = within_some_gear c"
  "within_some_gear (c\<lparr>v := [0, 0], v_gimbal := [0, 0]\<rparr>)"
  by (simp_all add: within_some_gear_def mark_sent_simps update_gear_simps gear_values_zero)

lemma within_some_gear_set_v:
  "within_some_gear c \<Longrightarrow> x \<in> gear_values UNIT_DELTA_SPEED \<Longrightarrow>
   within_some_gear (c\<lparr>v := (v c)[i := x]\<rparr>)"
  by (simp add: within_some_gear_def set_update_in)

lemma within_some_gear_set_v_gimbal:
  "within_some_gear c \<Longrightarrow> x \<in> gear_values UNIT_DELTA_DEGREE \<Longrightarrow>
   within_some_gear (c\<lparr>v_gimbal := (v_gimbal c)[i := x]\<rparr>)"
  by (simp add: within_some_gear_def set_update_in)

lemma two_axes_upd:
  "two_axes (mark_sent c) = two_axes c"
  "two_axes (update_gear c g) = two_axes c"
  "two_axes (c\<lparr>ctrl_pressed := b\<rparr>) = two_axes c"
  "two_axes (c\<lparr>v := [x, y], v_gimbal := [p, q]\<rparr>)"
  "two_axes c \<Longrightarrow> two_axes (c\<lparr>v := (v c)[i := x]\<rparr>)"
  "two_axes c \<Longrightarrow> two_axes (c\<lparr>v_gimbal := (v_gimbal c)[i := x]\<rparr>)"
  by (simp_all add: two_axes_def mark_sent_simps update_gear_simps)

lemma in_sync_upd:
  "in_sync (mark_sent c)"
  "in_sync (update_gear c g) = in_sync c"
  "in_sync (c\<lparr>ctrl_pressed := b\<rparr>) = in_sync c"
  by (simp_all add: in_sync_def mark_sent_simps update_gear_simps)

lemma gear_ok_upd:
  "gear_ok (mark_sent c) = gear_ok c"
  "g \<in> {1..5} \<Longrightarrow> gear_ok (update_gear c g)"
  "gear_ok (c\<lparr>ctrl_pressed := b\<rparr>) = gear_ok c"
  "gear_ok (c\<lparr>v := xs\<rparr>) = gear_ok c"
  "gear_ok (c\<lparr>v_gimbal := ys\<rparr>) = gear_ok c"
  by (simp_all add: gear_ok_def mark_sent_simps update_gear_simps)

lemma on_press_steady:
  assumes "steady c"
  shows "\<exists>c' out r. on_press c k = Some (c', out, r) \<and> steady c'"
proof -
  from assms have a: "two_axes c" "in_sync c" "gear_ok c" "within_some_gear c"
    by (simp_all add: steady_def)
  from a(3) have g: "delta_v c \<in> gear_values UNIT_DELTA_SPEED"
    "- delta_v c \<in> gear_values UNIT_DELTA_SPEED"
    "delta_d c \<in> gear_values UNIT_DELTA_DEGREE"
    "- delta_d c \<in> gear_values UNIT_DELTA_DEGREE"
    by (simp_all add: gear_ok_def gear_values_pos gear_values_neg)
  show ?thesis
    by (simp add: on_press_def set_v_two_axes set_v_gimbal_two_axes send_command_two_axes
        steady_def two_axes_upd in_sync_upd gear_ok_upd within_some_gear_upd
        within_some_gear_set_v within_some_gear_set_v_gimbal g a)
qed

lemma on_release_steady:
  assumes "steady c"
  shows "\<exists>c' out r. on_release c k = Some (c', out, r) \<and> steady c'"
proof -
  from assms have a: "two_axes c" "in_sync c" "gear_ok c" "within_some_gear c"
    by (simp_all add: steady_def)
  show ?thesis
    by (auto simp add: on_release_def set_v_two_axes set_v_gimbal_two_axes send_command_two_axes
        steady_def two_axes_upd in_sync_upd gear_ok_upd within_some_gear_upd
        within_some_gear_set_v within_some_gear_set_v_gimbal gear_values_zero a py_int_digits)
qed

lemma Controller_init_steady: "steady Controller_init"
  by (simp add: steady_def two_axes_def in_sync_def gear_ok_def within_some_gear_def
      Controller_init_def gear_values_zero)

lemma listener_steady:
  "steady c \<Longrightarrow> \<exists>c' out running. listener c es = Some (c', out, running) \<and> steady c'"
proof (induction es arbitrary: c)
  case Nil
  then show ?case by auto
next
  case (Cons e es)
  have "\<exists>c1 out1 r. dispatch c e = Some (c1, out1, r) \<and> steady c1"
    using Cons.prems on_press_steady on_release_steady by (cases e) simp_all
  then obtain c1 out1 r where d: "dispatch c e = Some (c1, out1, r)" and s1: "steady c1"
    by blast
  from Cons.IH [OF s1] obtain c2 out2 run where "listener c1 es = Some (c2, out2, run)" "steady c2"
    by blast
  with d s1 show ?case by (cases r) auto
qed

lemma parts_in_sync:
  "in_sync c \<Longrightarrow> chassis_part (c\<lparr>v := xs\<rparr>) @ gimbal_part (c\<lparr>v := xs\<rparr>) = speed_commands c (mark_sent (c\<lparr>v := xs\<rparr>))"
  "in_sync c \<Longrightarrow> chassis_part (c\<lparr>v_gimbal := ys\<rparr>) @ gimbal_part (c\<lparr>v_gimbal := ys\<rparr>) = speed_commands c (mark_sent (c\<lparr>v_gimbal := ys\<rparr>))"
  "in_sync c \<Longrightarrow> chassis_part (c\<lparr>v := xs, v_gimbal := ys\<rparr>) @ gimbal_part (c\<lparr>v := xs, v_gimbal := ys\<rparr>) = speed_commands c (mark_sent (c\<lparr>v := xs, v_gimbal := ys\<rparr>))"
  "in_sync c \<Longrightarrow> chassis_part c @ gimbal_part c = speed_commands c (mark_sent c)"
  "in_sync c \<Longrightarrow> speed_commands c (c\<lparr>ctrl_pressed := b\<rparr>) = []"
  "in_sync c \<Longrightarrow> speed_commands c (update_gear c g) = []"
  "speed_commands c c = []"
  by (auto simp: in_sync_def chassis_part_def gimbal_part_def speed_commands_def mark_sent_simps update_gear_simps)

lemma on_press_reports_change:
  assumes "two_axes c" and "in_sync c"
  shows "\<exists>c' out r. on_press c k = Some (c', out, r) \<and>
           (if k = Key_space then out = [blaster_fire] \<and> c' = c else out = speed_commands c c')"
  using assms
  by (simp add: on_press_def set_v_two_axes set_v_gimbal_two_axes send_command_two_axes
        two_axes_upd parts_in_sync)

lemma on_release_reports_change:
  assumes "two_axes c" and "in_sync c"
  shows "\<exists>c' out. on_release c k = Some (c', out, PyNone) \<and> out = speed_commands c c'"
  using assms
  by (auto simp add: on_release_def set_v_two_axes set_v_gimbal_two_axes send_command_two_axes
        two_axes_upd parts_in_sync py_int_digits)

subsection \<open>The invariant as the specification words it\<close>






lemma dispatch_steady:
  "steady c \<Longrightarrow> \<exists>c' out r. dispatch c e = Some (c', out, r) \<and> steady c'"
  using on_press_steady on_release_steady by (cases e) simp_all



subsection \<open>Runs of the listener\<close>

lemma dispatch_two_axes:
  assumes "two_axes c"
  shows "\<exists>c' out r. dispatch c e = Some (c', out, r) \<and> two_axes c' \<and>
           (r = PyFalse \<longrightarrow> e = Press (KeyCode CHR ''c''))"
proof (cases e)
  case (Press k)
  with assms show ?thesis
    by (simp add: on_press_def set_v_two_axes set_v_gimbal_two_axes send_command_two_axes
        two_axes_upd)
next
  case (Release k)
  with assms show ?thesis
    by (auto simp add: on_release_def set_v_two_axes set_v_gimbal_two_axes send_command_two_axes
        two_axes_upd py_int_digits)
qed

lemma listener_running:
  assumes "two_axes c" and "Press (KeyCode CHR ''c'') \<notin> set es"
  shows "\<exists>c' out. listener c es = Some (c', out, True) \<and> two_axes c'"
  using assms
proof (induction es arbitrary: c)
  case Nil
  then show ?case by simp
next
  case (Cons e es)
  from dispatch_two_axes [OF Cons.prems(1), of e] Cons.prems(2)
  obtain c1 out1 where d: "dispatch c e = Some (c1, out1, PyNone)" and t: "two_axes c1"
    by (metis list.set_intros(1) retval.exhaust)
  from Cons.prems(2) have "Press (KeyCode CHR ''c'') \<notin> set es" by simp
  from Cons.IH [OF t this] d show ?case by auto
qed

lemma listener_append:
  "listener c es = Some (c1, out1, True) \<Longrightarrow>
   listener c (es @ fs) =
     (case listener c1 fs of None \<Rightarrow> None
      | Some (c2, out2, running) \<Rightarrow> Some (c2, out1 @ out2, running))"
proof (induction es arbitrary: c out1)
  case Nil
  then show ?case by (simp split: option.splits)
next
  case (Cons e es)
  then show ?case
    by (auto split: option.splits if_splits)
qed

lemma on_release_zeroes:
  assumes "two_axes c" and "axis_of k = Some ax"
  shows "\<exists>c' out. on_release c k = Some (c', out, PyNone) \<and> component c' ax = 0"
proof -
  from assms(1) have l: "length (v c) = 2" "length (v_gimbal c) = 2"
    by (simp_all add: two_axes_def)
  from assms(2) consider
      "k \<in> set [KeyCode CHR ''w'', KeyCode CHR ''s'']" "ax = (False, 0)"
    | "k \<in> set [KeyCode CHR ''a'', KeyCode CHR ''d'']" "ax = (False, 1)"
    | "k \<in> set [Key_up, Key_down]" "ax = (True, 0)"
    | "k \<in> set [Key_left, Key_right]" "ax = (True, 1)"
    by (auto simp: axis_of_def split: if_splits)
  then show ?thesis
    using assms(1) l
    by cases (auto simp add: on_release_def set_v_two_axes set_v_gimbal_two_axes
        send_command_two_axes two_axes_upd component_def mark_sent_simps)
qed




lemma speed_commands_same:
  "v c' = v c \<Longrightarrow> v_gimbal c' = v_gimbal c \<Longrightarrow> speed_commands c c' = []"
  by (simp add: speed_commands_def)

lemma dispatch_reports_change:
  assumes "two_axes c" and "in_sync c"
  shows "\<exists>c' out r. dispatch c e = Some (c', out, r) \<and>
           (out = speed_commands c c' \<or> out = [blaster_fire])"
proof (cases e)
  case (Press k)
  with on_press_reports_change [OF assms, of k] show ?thesis
    by (auto split: if_splits)
next
  case (Release k)
  with on_release_reports_change [OF assms, of k] show ?thesis
    by auto
qed

subsection \<open>No command turns the chassis\<close>

lemma send_command_no_rotation:
  "send_command c = Some (c', out) \<Longrightarrow> list_all no_rotation out"
  by (auto simp: send_command_def bind_eq_Some_conv Let_def split: if_splits)

lemma on_press_no_rotation:
  assumes "on_press c k = Some (c', out, r)"
  shows "list_all no_rotation out"
proof -
  consider "k = Key_ctrl" | "k \<noteq> Key_ctrl" "ctrl_pressed c \<and> k = KeyCode CHR ''c''"
    | "k \<noteq> Key_ctrl" "\<not> (ctrl_pressed c \<and> k = KeyCode CHR ''c'')" "k = Key_space"
    | "k \<noteq> Key_ctrl" "\<not> (ctrl_pressed c \<and> k = KeyCode CHR ''c'')" "k \<noteq> Key_space"
    by blast
  then show ?thesis
  proof cases
    case 1
    with assms show ?thesis by (auto simp: on_press_def)
  next
    case 2
    with assms show ?thesis
      by (auto simp: on_press_def bind_eq_Some_conv Let_def dest: send_command_no_rotation)
  next
    case 3
    with assms show ?thesis by (auto simp: on_press_def)
  next
    case 4
    with assms obtain c1 c2 where "send_command c1 = Some (c2, out)"
      unfolding on_press_def by (simp add: bind_eq_Some_conv) blast
    then show ?thesis by (rule send_command_no_rotation)
  qed
qed

lemma on_release_no_rotation:
  assumes "on_release c k = Some (c', out, r)"
  shows "list_all no_rotation out"
proof -
  let ?gears = "set [KeyCode CHR ''1'', KeyCode CHR ''2'', KeyCode CHR ''3'',
                          KeyCode CHR ''4'', KeyCode CHR ''5'']"
  consider "k = Key_ctrl" | "k \<noteq> Key_ctrl" "k \<in> ?gears" | "k \<noteq> Key_ctrl" "k \<notin> ?gears"
    by blast
  then show ?thesis
  proof cases
    case 1
    with assms show ?thesis by (auto simp: on_release_def)
  next
    case 2
    with assms show ?thesis
      unfolding on_release_def by (auto simp: bind_eq_Some_conv)
  next
    case 3
    with assms obtain c1 c2 where "send_command c1 = Some (c2, out)"
      unfolding on_release_def by (simp add: bind_eq_Some_conv) blast
    then show ?thesis by (rule send_command_no_rotation)
  qed
qed

lemma dispatch_no_rotation:
  "dispatch c e = Some (c', out, r) \<Longrightarrow> list_all no_rotation out"
  using on_press_no_rotation on_release_no_rotation by (cases e) auto

lemma handle_event_no_rotation: "list_all no_rotation (snd (handle_event qs))"
  by (cases qs) (simp add: handle_event_def split: option.splits list.splits event.splits)

lemma system_step_no_rotation:
  assumes "system_step s i = Some s'" and "list_all no_rotation (sent s)"
  shows "list_all no_rotation (sent s')"
proof (cases i)
  case (Keyboard e)
  with assms show ?thesis
    by (auto split: if_splits option.splits dest: dispatch_no_rotation)
next
  case Poll
  with assms handle_event_no_rotation [of "(push_queue s, event_queue s)"] show ?thesis
    by (auto split: prod.splits)
next
  case (Push_arrives m)
  with assms show ?thesis by auto
next
  case (Event_arrives ev)
  with assms show ?thesis by auto
qed

lemma system_step_steady:
  assumes "steady (controller s)"
  shows "\<exists>s'. system_step s i = Some s' \<and> steady (controller s')"
proof (cases i)
  case (Keyboard e)
  with dispatch_steady [OF assms, of e] assms show ?thesis by auto
next
  case Poll
  with assms show ?thesis by (auto split: prod.splits)
next
  case (Push_arrives m)
  with assms show ?thesis by auto
next
  case (Event_arrives ev)
  with assms show ?thesis by auto
qed

lemma system_run_no_rotation:
  assumes "steady (controller s)" and "list_all no_rotation (sent s)"
  shows "\<exists>s'. system_run s ins = Some s' \<and> list_all no_rotation (sent s')"
  using assms
proof (induction ins arbitrary: s)
  case Nil
  then show ?case by simp
next
  case (Cons i ins)
  from system_step_steady [OF Cons.prems(1), of i]
  obtain s1 where st: "system_step s i = Some s1" and s1: "steady (controller s1)"
    by blast
  from system_step_no_rotation [OF st Cons.prems(2)] have "list_all no_rotation (sent s1)" .
  from Cons.IH [OF s1 this] st show ?case by simp
qed

subsection \<open>Evaluating a concrete run\<close>

lemmas run_simps =
  Controller_init_def on_press_def on_release_def send_command_def set_v_def set_v_gimbal_def
  setitem_def getitem_def update_gear_def py_int_def UNIT_DELTA_SPEED_def UNIT_DELTA_DEGREE_def
  Let_def

section \<open>The claims\<close>

subsection \<open>Send on change\<close>

text \<open>
  Claim C1. Whenever \<^const>\<open>send_command\<close> runs, it issues a chassis-speed command if and
  only if \<open>v\<close> differs from \<open>previous_v\<close> at the call, and \<open>previous_v\<close> is then the value
  sent; the same holds for the gimbal pair, independently. A second send with the same
  velocities issues nothing, so reaching a velocity twice in a row gives one command for
  its group. The two hypotheses say that both velocity lists have their two elements.
\<close>

theorem send_command_sends_on_change:
  assumes "length (v c) = 2" and "length (v_gimbal c) = 2"
  shows "\<exists>c' out. send_command c = Some (c', out) \<and>
     out = (if v c \<noteq> previous_v c then [chassis_speed (v c ! 0) (v c ! 1) 0] else []) @
           (if v_gimbal c \<noteq> previous_v_gimbal c
            then [gimbal_speed (v_gimbal c ! 0) (v_gimbal c ! 1)] else []) \<and>
     ((\<exists>cmd \<in> set out. is_chassis cmd) \<longleftrightarrow> v c \<noteq> previous_v c) \<and>
     ((\<exists>cmd \<in> set out. is_gimbal cmd) \<longleftrightarrow> v_gimbal c \<noteq> previous_v_gimbal c) \<and>
     c' = c\<lparr>previous_v := v c, previous_v_gimbal := v_gimbal c\<rparr> \<and>
     send_command c' = Some (c', [])"
proof -
  from assms have t: "two_axes c" by (simp add: two_axes_def)
  have s: "send_command (mark_sent c) = Some (mark_sent c, [])"
    by (rule send_command_in_sync) (rule in_sync_upd)
  show ?thesis
    using s unfolding send_command_two_axes [OF t]
    by (auto simp add: chassis_part_def gimbal_part_def mark_sent_def)
qed

theorem send_command_sends_on_change_witness:
  "send_command \<lparr>gear = 2, delta_v = 0.4, delta_d = 40, v = [0.4, 0], previous_v = [0, 0],
      v_gimbal = [0, -40], previous_v_gimbal = [0, -40], ctrl_pressed = False\<rparr>
   = Some (\<lparr>gear = 2, delta_v = 0.4, delta_d = 40, v = [0.4, 0], previous_v = [0.4, 0],
      v_gimbal = [0, -40], previous_v_gimbal = [0, -40], ctrl_pressed = False\<rparr>,
      [chassis_speed 0.4 0 0])"
  using send_command_sends_on_change [of "\<lparr>gear = 2, delta_v = 0.4, delta_d = 40, v = [0.4, 0],
      previous_v = [0, 0], v_gimbal = [0, -40], previous_v_gimbal = [0, -40],
      ctrl_pressed = False\<rparr>"]
  by simp

subsection \<open>The values a velocity component takes\<close>




subsection \<open>The safety path\<close>

text \<open>
  Claim C3. For the message that \<^const>\<open>handle_event\<close> takes from the event queue: an
  \<^verbatim>\<open>ArmorHitEvent\<close> makes it issue \<^verbatim>\<open>chassis_speed(0, 0, 0)\<close> in that poll cycle, whatever
  the state of the controller is (the last conjunct, for any system state \<open>s\<close>); an event
  of any other class, or an empty queue, makes it issue no command.
\<close>

theorem armor_hit_issues_zero_chassis:
  "handle_event (pq, ArmorHitEvent (a::'a) # eq) =
     ((case pq of [] \<Rightarrow> [] | m # q \<Rightarrow> q, eq), [chassis_speed 0 0 0]) \<and>
   handle_event (pq, SoundApplauseEvent a # eq) = ((case pq of [] \<Rightarrow> [] | m # q \<Rightarrow> q, eq), []) \<and>
   handle_event (pq, OtherEvent a # eq) = ((case pq of [] \<Rightarrow> [] | m # q \<Rightarrow> q, eq), []) \<and>
   handle_event (pq, [] :: 'a event list) = ((case pq of [] \<Rightarrow> [] | m # q \<Rightarrow> q, []), []) \<and>
   (\<exists>s'. system_step (s\<lparr>event_queue := ArmorHitEvent a # eq\<rparr>) Poll = Some s' \<and>
         sent s' = sent s @ [chassis_speed 0 0 0])"
  by (simp add: handle_event_def split: list.splits)

theorem armor_hit_issues_zero_chassis_witness:
  "handle_event ([''push''], [ArmorHitEvent (1::nat), SoundApplauseEvent 2]) =
     (([], [SoundApplauseEvent 2]), [chassis_speed 0 0 0])"
  using armor_hit_issues_zero_chassis
    [where pq = "[''push'']" and a = "1::nat" and eq = "[SoundApplauseEvent (2::nat)]"
       and s = "system_init :: (string, nat) system"]
  by simp

text \<open>
  Claim C4. A poll cycle that finds an \<^verbatim>\<open>ArmorHitEvent\<close> sends the zero command and leaves
  the controller as it is, \<open>previous_v\<close> included. A \<^const>\<open>send_command\<close> that follows, with
  \<open>v\<close> equal to \<open>previous_v\<close>, therefore issues no chassis command, although the last
  command the chassis received is the stop. The witness is the run: forward pressed,
  armor hit, forward pressed again (the key repeating); the robot stays stopped while
  the controller holds 0.2 along x.
\<close>

theorem armor_hit_keeps_controller:
  assumes "event_queue s = ArmorHitEvent a # eq"
    and "two_axes (controller s)"
    and "v (controller s) = previous_v (controller s)"
  shows "\<exists>s'. system_step s Poll = Some s' \<and>
     controller s' = controller s \<and>
     listening s' = listening s \<and>
     sent s' = sent s @ [chassis_speed 0 0 0] \<and>
     (\<exists>c' out. send_command (controller s') = Some (c', out) \<and>
         (\<forall>cmd \<in> set out. \<not> is_chassis cmd))"
proof -
  from assms(1) have
    "system_step s Poll =
       Some (s\<lparr>push_queue := (case push_queue s of [] \<Rightarrow> [] | m # q \<Rightarrow> q), event_queue := eq,
               sent := sent s @ [chassis_speed 0 0 0]\<rparr>)"
    by (simp add: handle_event_def split: list.splits)
  moreover have "\<exists>c' out. send_command (controller s) = Some (c', out) \<and>
         (\<forall>cmd \<in> set out. \<not> is_chassis cmd)"
    using assms(3)
    by (simp add: send_command_two_axes [OF assms(2)] chassis_part_def gimbal_part_def)
  ultimately show ?thesis by simp
qed

theorem armor_hit_keeps_controller_witness:
  "\<exists>s1 s2 s3.
     system_run (system_init\<lparr>event_queue := [ArmorHitEvent (1::nat)]\<rparr> :: (string, nat) system)
       [Keyboard (Press (KeyCode CHR ''w''))] = Some s1 \<and>
     system_step s1 Poll = Some s2 \<and>
     controller s2 = controller s1 \<and>
     v (controller s2) = [0.2, 0] \<and>
     sent s2 = [chassis_speed 0.2 0 0, chassis_speed 0 0 0] \<and>
     system_step s2 (Keyboard (Press (KeyCode CHR ''w''))) = Some s3 \<and>
     sent s3 = sent s2"
proof -
  define s1 :: "(string, nat) system" where
    "s1 = \<lparr>controller = \<lparr>gear = 1, delta_v = 0.2, delta_d = 20, v = [0.2, 0],
              previous_v = [0.2, 0], v_gimbal = [0, 0], previous_v_gimbal = [0, 0],
              ctrl_pressed = False\<rparr>,
            push_queue = [], event_queue = [ArmorHitEvent 1], listening = True,
            sent = [chassis_speed 0.2 0 0]\<rparr>"
  have r: "system_run (system_init\<lparr>event_queue := [ArmorHitEvent (1::nat)]\<rparr> :: (string, nat) system)
       [Keyboard (Press (KeyCode CHR ''w''))] = Some s1"
    by (simp add: s1_def system_init_def run_simps)
  have h: "event_queue s1 = ArmorHitEvent 1 # []" "two_axes (controller s1)"
    "v (controller s1) = previous_v (controller s1)"
    by (simp_all add: s1_def two_axes_def)
  from armor_hit_keeps_controller [OF h]
  obtain s2 where p: "system_step s1 Poll = Some s2" "controller s2 = controller s1"
    "listening s2 = listening s1" "sent s2 = sent s1 @ [chassis_speed 0 0 0]"
    by blast
  have "system_step s2 (Keyboard (Press (KeyCode CHR ''w''))) = Some (s2\<lparr>sent := sent s2\<rparr>)"
    using p(2,3) by (simp add: s1_def run_simps)
  with r p show ?thesis
    by (simp add: s1_def)
qed

subsection \<open>The quit chord\<close>

text \<open>
  Claim C5, as amended. With the modifier held, pressing \<^verbatim>\<open>c\<close> zeroes both velocity
  vectors, sends once and returns \<^verbatim>\<open>False\<close>, so that the listener stops and no later event
  is handled. The send issues \<^verbatim>\<open>chassis_speed(0, 0, 0)\<close> exactly when the last-sent chassis
  velocity is not zero, and then \<^verbatim>\<open>gimbal_speed(0, 0)\<close> exactly when the last-sent gimbal
  velocity is not zero; between two key events the last-sent velocities are the current
  ones. A group that is already at rest gets no command.
\<close>

theorem quit_chord_zeroes_and_stops:
  assumes "ctrl_pressed c"
  shows "\<exists>c' out. on_press c (KeyCode CHR ''c'') = Some (c', out, PyFalse) \<and>
     v c' = [0, 0] \<and> v_gimbal c' = [0, 0] \<and>
     previous_v c' = [0, 0] \<and> previous_v_gimbal c' = [0, 0] \<and>
     out = (if previous_v c \<noteq> [0, 0] then [chassis_speed 0 0 0] else []) @
           (if previous_v_gimbal c \<noteq> [0, 0] then [gimbal_speed 0 0] else []) \<and>
     (in_sync c \<longrightarrow>
        out = (if v c \<noteq> [0, 0] then [chassis_speed 0 0 0] else []) @
              (if v_gimbal c \<noteq> [0, 0] then [gimbal_speed 0 0] else [])) \<and>
     listener c (Press (KeyCode CHR ''c'') # es) = Some (c', out, False)"
proof -
  have t: "two_axes (c\<lparr>v := [0, 0], v_gimbal := [0, 0]\<rparr>)"
    by (simp add: two_axes_def)
  from assms have
    "on_press c (KeyCode CHR ''c'') =
       Some (mark_sent (c\<lparr>v := [0, 0], v_gimbal := [0, 0]\<rparr>),
             chassis_part (c\<lparr>v := [0, 0], v_gimbal := [0, 0]\<rparr>) @
             gimbal_part (c\<lparr>v := [0, 0], v_gimbal := [0, 0]\<rparr>), PyFalse)"
    by (simp add: on_press_def send_command_two_axes [OF t])
  then show ?thesis
    by (auto simp add: mark_sent_simps chassis_part_def gimbal_part_def in_sync_def)
qed

theorem quit_chord_zeroes_and_stops_witness:
  "on_press
     \<lparr>gear = 1, delta_v = 0.2, delta_d = 20, v = [0.2, 0], previous_v = [0.2, 0],
      v_gimbal = [0, 0], previous_v_gimbal = [0, 0], ctrl_pressed = True\<rparr>
     (KeyCode CHR ''c'') =
   Some (\<lparr>gear = 1, delta_v = 0.2, delta_d = 20, v = [0, 0], previous_v = [0, 0],
          v_gimbal = [0, 0], previous_v_gimbal = [0, 0], ctrl_pressed = True\<rparr>,
         [chassis_speed 0 0 0], PyFalse)"
proof -
  have "ctrl_pressed \<lparr>gear = 1, delta_v = 0.2, delta_d = 20, v = [0.2, 0], previous_v = [0.2, 0],
      v_gimbal = [0, 0], previous_v_gimbal = [0, 0], ctrl_pressed = True\<rparr>"
    by simp
  from quit_chord_zeroes_and_stops [OF this]
  show ?thesis by (simp add: run_simps)
qed

text \<open>
  The claim as worded fails: with only the chassis moving, the chord sends the chassis
  stop and no gimbal command at all.
\<close>

theorem quit_chord_sends_no_gimbal_command:
  "listener Controller_init [Press (KeyCode CHR ''w''), Press Key_ctrl, Press (KeyCode CHR ''c'')] =
     Some (\<lparr>gear = 1, delta_v = 0.2, delta_d = 20, v = [0, 0], previous_v = [0, 0],
            v_gimbal = [0, 0], previous_v_gimbal = [0, 0], ctrl_pressed = True\<rparr>,
           [chassis_speed 0.2 0 0, chassis_speed 0 0 0], False) \<and>
   v \<lparr>gear = 1, delta_v = 0.2, delta_d = 20, v = [0.2, 0], previous_v = [0.2, 0],
      v_gimbal = [0, 0], previous_v_gimbal = [0, 0], ctrl_pressed = True\<rparr> ! 0 \<noteq> 0 \<and>
   on_press
     \<lparr>gear = 1, delta_v = 0.2, delta_d = 20, v = [0.2, 0], previous_v = [0.2, 0],
      v_gimbal = [0, 0], previous_v_gimbal = [0, 0], ctrl_pressed = True\<rparr>
     (KeyCode CHR ''c'') =
   Some (\<lparr>gear = 1, delta_v = 0.2, delta_d = 20, v = [0, 0], previous_v = [0, 0],
          v_gimbal = [0, 0], previous_v_gimbal = [0, 0], ctrl_pressed = True\<rparr>,
         [chassis_speed 0 0 0], PyFalse) \<and>
   gimbal_speed 0 0 \<notin> set [chassis_speed 0.2 0 0, chassis_speed 0 0 0]"
  by (simp add: run_simps)

subsection \<open>Releases\<close>

text \<open>
  Claim C6. Take a movement key \<open>k\<close>, any controller with two-element lists (so any gear
  and any magnitudes), and any sequence of presses and releases of \<open>k\<close>, possibly mixed
  with presses and releases of gear keys. After a release of \<open>k\<close> at the end, the
  component that \<open>k\<close> drives is exactly 0, and the listener is still running.
\<close>

theorem release_zeroes_axis:
  assumes "two_axes c" and "axis_of k = Some ax"
    and "set es \<subseteq> {Press k, Release k} \<union> Press ` fst ` set gear_keys \<union> Release ` fst ` set gear_keys"
  shows "\<exists>c' out. listener c (es @ [Release k]) = Some (c', out, True) \<and> component c' ax = 0"
proof -
  from assms(2) have "k \<noteq> KeyCode CHR ''c''"
    by (auto simp: axis_of_def split: if_splits)
  with assms(3) have "Press (KeyCode CHR ''c'') \<notin> set es"
    by (auto simp: gear_keys_def)
  from listener_running [OF assms(1) this]
  obtain c1 out1 where l1: "listener c es = Some (c1, out1, True)" and t1: "two_axes c1"
    by blast
  from on_release_zeroes [OF t1 assms(2)]
  obtain c2 out2 where r: "on_release c1 k = Some (c2, out2, PyNone)" and z: "component c2 ax = 0"
    by blast
  from listener_append [OF l1, of "[Release k]"] r z show ?thesis by simp
qed

theorem release_zeroes_axis_witness:
  "\<exists>c' out.
     listener (Controller_init\<lparr>gear := 4, delta_v := 0.8, delta_d := 80\<rparr>)
       ([Press Key_left, Release (KeyCode CHR ''2''), Press Key_left] @ [Release Key_left]) =
       Some (c', out, True) \<and> component c' (True, 1) = 0"
proof -
  have "two_axes (Controller_init\<lparr>gear := 4, delta_v := 0.8, delta_d := 80\<rparr>)"
    by (simp add: two_axes_def Controller_init_def)
  moreover have "axis_of Key_left = Some (True, 1)"
    by (simp add: axis_of_def)
  moreover have "set [Press Key_left, Release (KeyCode CHR ''2''), Press Key_left]
      \<subseteq> {Press Key_left, Release Key_left} \<union> Press ` fst ` set gear_keys
          \<union> Release ` fst ` set gear_keys"
    by (simp add: gear_keys_def)
  ultimately show ?thesis by (rule release_zeroes_axis)
qed



subsection \<open>Keys without a meaning\<close>

text \<open>
  Claim C8. In every state that a sequence of key events reaches from the initial state,
  pressing or releasing a key that is not one of the mapped keys leaves every field of
  the controller unchanged and issues no command.
\<close>

theorem unmapped_key_ignored:
  "\<exists>c out running. listener Controller_init es = Some (c, out, running) \<and>
     (\<forall>k. k \<notin> set mapped_keys \<longrightarrow>
        on_press c k = Some (c, [], PyNone) \<and> on_release c k = Some (c, [], PyNone))"
proof -
  obtain c out running where l: "listener Controller_init es = Some (c, out, running)"
    and s: "steady c"
    using listener_steady [OF Controller_init_steady] by blast
  from s have i: "in_sync c" by (simp add: steady_def)
  have "on_press c k = Some (c, [], PyNone) \<and> on_release c k = Some (c, [], PyNone)"
    if "k \<notin> set mapped_keys" for k
    using that
    by (simp add: mapped_keys_def on_press_def on_release_def send_command_in_sync [OF i])
  with l show ?thesis by blast
qed

theorem unmapped_key_ignored_witness:
  "\<exists>c out running.
     listener Controller_init [Press (KeyCode CHR ''d''), Release (KeyCode CHR ''2'')] =
       Some (c, out, running) \<and>
     on_press c (KeyCode CHR ''x'') = Some (c, [], PyNone) \<and>
     on_release c (Key_other ''shift'') = Some (c, [], PyNone)"
proof -
  have "KeyCode CHR ''x'' \<notin> set mapped_keys" "Key_other ''shift'' \<notin> set mapped_keys"
    by (simp_all add: mapped_keys_def)
  with unmapped_key_ignored [of "[Press (KeyCode CHR ''d''), Release (KeyCode CHR ''2'')]"]
  show ?thesis by blast
qed

subsection \<open>The last-sent fields\<close>

text \<open>
  Claim C9. In the initial state and after every handler, \<open>v\<close> equals \<open>previous_v\<close> and
  \<open>v_gimbal\<close> equals \<open>previous_v_gimbal\<close>. Hence a key event that leaves both velocity
  vectors as they are issues no speed command.
\<close>

theorem last_sent_in_sync:
  "\<exists>c out running. listener Controller_init es = Some (c, out, running) \<and>
     v c = previous_v c \<and> v_gimbal c = previous_v_gimbal c \<and>
     (\<forall>e. \<exists>c' out' r. dispatch c e = Some (c', out', r) \<and>
        (v c' = v c \<and> v_gimbal c' = v_gimbal c \<longrightarrow>
           (\<forall>cmd \<in> set out'. \<not> is_chassis cmd \<and> \<not> is_gimbal cmd)))"
proof -
  obtain c out running where l: "listener Controller_init es = Some (c, out, running)"
    and s: "steady c"
    using listener_steady [OF Controller_init_steady] by blast
  from s have t: "two_axes c" and i: "in_sync c" by (simp_all add: steady_def)
  have "\<exists>c' out' r. dispatch c e = Some (c', out', r) \<and>
        (v c' = v c \<and> v_gimbal c' = v_gimbal c \<longrightarrow>
           (\<forall>cmd \<in> set out'. \<not> is_chassis cmd \<and> \<not> is_gimbal cmd))" for e
    using dispatch_reports_change [OF t i, of e]
    by (auto simp: speed_commands_same)
  with l i show ?thesis
    unfolding in_sync_def by blast
qed

theorem last_sent_in_sync_witness:
  "\<exists>c out running.
     listener Controller_init [Press (KeyCode CHR ''s''), Press Key_up, Release (KeyCode CHR ''s'')] =
       Some (c, out, running) \<and>
     v c = previous_v c \<and> v_gimbal c = previous_v_gimbal c \<and>
     (\<exists>c' out' r. dispatch c (Press Key_up) = Some (c', out', r) \<and>
        v c' = v c \<and> v_gimbal c' = v_gimbal c \<and>
        (\<forall>cmd \<in> set out'. \<not> is_chassis cmd \<and> \<not> is_gimbal cmd))"
proof -
  let ?es = "[Press (KeyCode CHR ''s''), Press Key_up, Release (KeyCode CHR ''s'')]"
  from last_sent_in_sync [of ?es]
  obtain c out running where l: "listener Controller_init ?es = Some (c, out, running)"
    and s: "v c = previous_v c" "v_gimbal c = previous_v_gimbal c"
    and d: "\<forall>e. \<exists>c' out' r. dispatch c e = Some (c', out', r) \<and>
        (v c' = v c \<and> v_gimbal c' = v_gimbal c \<longrightarrow>
           (\<forall>cmd \<in> set out'. \<not> is_chassis cmd \<and> \<not> is_gimbal cmd))"
    by blast
  have "listener Controller_init ?es =
      Some (\<lparr>gear = 1, delta_v = 0.2, delta_d = 20, v = [0, 0], previous_v = [0, 0],
              v_gimbal = [20, 0], previous_v_gimbal = [20, 0], ctrl_pressed = False\<rparr>,
            [chassis_speed (- 0.2) 0 0, gimbal_speed 20 0, chassis_speed 0 0 0], True)"
    by (simp add: run_simps)
  with l have c: "c = \<lparr>gear = 1, delta_v = 0.2, delta_d = 20, v = [0, 0], previous_v = [0, 0],
              v_gimbal = [20, 0], previous_v_gimbal = [20, 0], ctrl_pressed = False\<rparr>"
    by simp
  from d obtain c' out' r where e: "dispatch c (Press Key_up) = Some (c', out', r)"
    and n: "v c' = v c \<and> v_gimbal c' = v_gimbal c \<longrightarrow>
           (\<forall>cmd \<in> set out'. \<not> is_chassis cmd \<and> \<not> is_gimbal cmd)"
    by blast
  from e have "c' = c" unfolding c by (simp add: run_simps)
  with n e l s show ?thesis by blast
qed

subsection \<open>No rotation\<close>

text \<open>
  Claim C10. Every chassis-speed command has 0 as its third argument: those of
  \<^const>\<open>send_command\<close>, of the two keyboard handlers and of \<^const>\<open>handle_event\<close>, from any
  state, and so every command the robot is sent in any run of the two workers from the
  initial state.
\<close>

theorem chassis_never_rotates:
  "(\<forall>c' out. send_command c = Some (c', out) \<longrightarrow> list_all no_rotation out) \<and>
   (\<forall>c' out r. dispatch c e = Some (c', out, r) \<longrightarrow> list_all no_rotation out) \<and>
   list_all no_rotation (snd (handle_event (qs :: 'p list \<times> 'a event list))) \<and>
   (\<exists>s'. system_run (system_init :: ('p, 'a) system) ins = Some s' \<and>
         list_all no_rotation (sent s'))"
proof -
  have "steady (controller (system_init :: ('p, 'a) system))"
    "list_all no_rotation (sent (system_init :: ('p, 'a) system))"
    by (simp_all add: system_init_def Controller_init_steady)
  from system_run_no_rotation [OF this, of ins]
  show ?thesis
    using send_command_no_rotation dispatch_no_rotation handle_event_no_rotation by blast
qed

theorem chassis_never_rotates_witness:
  "send_command
     \<lparr>gear = 2, delta_v = 0.4, delta_d = 40, v = [0, - 0.4], previous_v = [0, 0],
      v_gimbal = [0, 0], previous_v_gimbal = [0, 0], ctrl_pressed = False\<rparr> =
     Some (\<lparr>gear = 2, delta_v = 0.4, delta_d = 40, v = [0, - 0.4], previous_v = [0, - 0.4],
            v_gimbal = [0, 0], previous_v_gimbal = [0, 0], ctrl_pressed = False\<rparr>,
           [chassis_speed 0 (- 0.4) 0]) \<and>
   list_all no_rotation [chassis_speed 0 (- 0.4) 0] \<and>
   (\<exists>s'. system_run (system_init :: (string, nat) system)
       [Keyboard (Press (KeyCode CHR ''w'')), Event_arrives (ArmorHitEvent 7), Poll,
        Keyboard (Press Key_right)] = Some s' \<and>
     list_all no_rotation (sent s'))"
proof -
  let ?c = "\<lparr>gear = 2, delta_v = 0.4, delta_d = 40, v = [0, - 0.4], previous_v = [0, 0],
      v_gimbal = [0, 0], previous_v_gimbal = [0, 0], ctrl_pressed = False\<rparr>"
  have s: "send_command ?c =
     Some (\<lparr>gear = 2, delta_v = 0.4, delta_d = 40, v = [0, - 0.4], previous_v = [0, - 0.4],
            v_gimbal = [0, 0], previous_v_gimbal = [0, 0], ctrl_pressed = False\<rparr>,
           [chassis_speed 0 (- 0.4) 0])"
    by (simp add: run_simps)
  from chassis_never_rotates
    [where c = ?c and ins = "[Keyboard (Press (KeyCode CHR ''w'')),
        Event_arrives (ArmorHitEvent (7::nat)), Poll, Keyboard (Press Key_right)]
        :: (string, nat) input list"]
    s
  show ?thesis by blast
qed

end
